theory Spec2Isabelle
  imports Complex_Main
begin

section \<open>Floats and series\<close>

text \<open>
  The program computes on pandas Series of float64. A float is modelled as a real number
  or NaN (\<open>None\<close>): rounding, overflow and the infinities of IEEE arithmetic are outside
  the model. Arithmetic propagates NaN and every comparison with NaN is false, as in
  numpy. A Series is the list of its values in index order.
\<close>

type_synonym pyfloat = "real option"
type_synonym series = "pyfloat list"

datatype py_exception = IndexError | ZeroDivisionError | ValueError | TransportError string

fun fadd :: "pyfloat \<Rightarrow> pyfloat \<Rightarrow> pyfloat" where
  "fadd (Some x) (Some y) = Some (x + y)"
| "fadd _ _ = None"

fun fsub :: "pyfloat \<Rightarrow> pyfloat \<Rightarrow> pyfloat" where
  "fsub (Some x) (Some y) = Some (x - y)"
| "fsub _ _ = None"

fun fmul :: "pyfloat \<Rightarrow> pyfloat \<Rightarrow> pyfloat" where
  "fmul (Some x) (Some y) = Some (x * y)"
| "fmul _ _ = None"

text \<open>
  Series division. numpy gives an infinity (or NaN for 0/0) where the divisor is zero;
  the model has no infinities and gives NaN there. Every quotient the modelled code
  keeps has a divisor that was guarded (by \<open>replace(0, nan)\<close> or \<open>np.where\<close>) or is a
  non-zero constant, except \<open>100 / (1 + ratio)\<close> in \<open>rsi\<close> and \<open>mfi\<close>, whose divisor is
  zero only for a ratio of exactly -1.
\<close>

fun fdiv :: "pyfloat \<Rightarrow> pyfloat \<Rightarrow> pyfloat" where
  "fdiv (Some x) (Some y) = (if y = 0 then None else Some (x / y))"
| "fdiv _ _ = None"

fun fneg :: "pyfloat \<Rightarrow> pyfloat" where
  "fneg (Some x) = Some (- x)"
| "fneg None = None"

fun fabs :: "pyfloat \<Rightarrow> pyfloat" where
  "fabs (Some x) = Some \<bar>x\<bar>"
| "fabs None = None"

fun fgt :: "pyfloat \<Rightarrow> pyfloat \<Rightarrow> bool" where
  "fgt (Some x) (Some y) = (x > y)"
| "fgt _ _ = False"

fun flt :: "pyfloat \<Rightarrow> pyfloat \<Rightarrow> bool" where
  "flt (Some x) (Some y) = (x < y)"
| "flt _ _ = False"

fun fge :: "pyfloat \<Rightarrow> pyfloat \<Rightarrow> bool" where
  "fge (Some x) (Some y) = (x \<ge> y)"
| "fge _ _ = False"

fun fle :: "pyfloat \<Rightarrow> pyfloat \<Rightarrow> bool" where
  "fle (Some x) (Some y) = (x \<le> y)"
| "fle _ _ = False"

fun feq :: "pyfloat \<Rightarrow> pyfloat \<Rightarrow> bool" where
  "feq (Some x) (Some y) = (x = y)"
| "feq _ _ = False"

fun isna :: "pyfloat \<Rightarrow> bool" where
  "isna None = True"
| "isna (Some x) = False"

section \<open>utils.py: anchored\_vwap\<close>

text \<open>
  \<^verbatim>\<open>
  def anchored_vwap(prices, volumes, anchor):
      vwap_vals = []
      cum_pv = 0.0
      cum_v = 0.0
      for i in range(len(prices)):
          if bool(anchor.iat[i]):
              cum_pv = float(prices.iat[i] * volumes.iat[i])
              cum_v = float(volumes.iat[i])
          else:
              cum_pv += float(prices.iat[i] * volumes.iat[i])
              cum_v += float(volumes.iat[i])
          vwap_vals.append(cum_pv / cum_v if cum_v > 0 else np.nan)
      return pd.Series(vwap_vals, index=prices.index)
  \<close>
  \<open>cum_pv\<close> and \<open>cum_v\<close> are Python floats, so \<open>cum_pv / cum_v\<close> raises
  ZeroDivisionError on a zero divisor; \<open>.iat[i]\<close> raises IndexError when \<open>volumes\<close> or
  \<open>anchor\<close> is shorter than \<open>prices\<close>.
\<close>

definition py_truediv :: "pyfloat \<Rightarrow> pyfloat \<Rightarrow> py_exception + pyfloat" where
  "py_truediv a b = (if b = Some 0 then Inl ZeroDivisionError else Inr (fdiv a b))"

text \<open>The two accumulators after one pass of the loop body.\<close>

definition vwap_step :: "pyfloat \<times> pyfloat \<Rightarrow> pyfloat \<Rightarrow> pyfloat \<Rightarrow> bool \<Rightarrow> pyfloat \<times> pyfloat" where
  "vwap_step acc p v a =
     (if a then (fmul p v, v)
      else (fadd (fst acc) (fmul p v), fadd (snd acc) v))"

text \<open>The value appended to \<open>vwap_vals\<close>.\<close>

definition vwap_value :: "pyfloat \<times> pyfloat \<Rightarrow> py_exception + pyfloat" where
  "vwap_value acc = (if fgt (snd acc) (Some 0) then py_truediv (fst acc) (snd acc) else Inr None)"

fun anchored_vwap_loop ::
  "pyfloat \<times> pyfloat \<Rightarrow> series \<Rightarrow> series \<Rightarrow> bool list \<Rightarrow> py_exception + series" where
  "anchored_vwap_loop acc [] vs an = Inr []"
| "anchored_vwap_loop acc (p # ps) vs [] = Inl IndexError"
| "anchored_vwap_loop acc (p # ps) [] (a # an) = Inl IndexError"
| "anchored_vwap_loop acc (p # ps) (v # vs) (a # an) =
     (case vwap_value (vwap_step acc p v a) of
        Inl e \<Rightarrow> Inl e
      | Inr x \<Rightarrow>
          (case anchored_vwap_loop (vwap_step acc p v a) ps vs an of
             Inl e \<Rightarrow> Inl e
           | Inr xs \<Rightarrow> Inr (x # xs)))"

definition anchored_vwap :: "series \<Rightarrow> series \<Rightarrow> bool list \<Rightarrow> py_exception + series" where
  "anchored_vwap prices volumes anchor = anchored_vwap_loop (Some 0, Some 0) prices volumes anchor"

text \<open>
  The accumulators \<open>(cum_pv, cum_v)\<close> as they stand at the end of each pass of the loop,
  for series of equal length.
\<close>

fun vwap_accs :: "pyfloat \<times> pyfloat \<Rightarrow> series \<Rightarrow> series \<Rightarrow> bool list \<Rightarrow> (pyfloat \<times> pyfloat) list" where
  "vwap_accs acc (p # ps) (v # vs) (a # an) =
     vwap_step acc p v a # vwap_accs (vwap_step acc p v a) ps vs an"
| "vwap_accs acc _ _ _ = []"

section \<open>pandas operations on series\<close>

text \<open>\<open>s.shift(1)\<close>: every value moves one place down, the first becomes NaN.\<close>

definition shift1 :: "series \<Rightarrow> series" where
  "shift1 xs = (if xs = [] then [] else None # butlast xs)"

text \<open>\<open>s.diff()\<close>: the difference with the previous value, NaN at the first place.\<close>

definition diff :: "series \<Rightarrow> series" where
  "diff xs = map2 fsub xs (shift1 xs)"

text \<open>\<open>s.clip(lower=l)\<close> and \<open>s.clip(upper=u)\<close> keep NaN.\<close>

definition clip_lower :: "real \<Rightarrow> series \<Rightarrow> series" where
  "clip_lower l xs = map (map_option (\<lambda>x. max x l)) xs"

definition clip_upper :: "real \<Rightarrow> series \<Rightarrow> series" where
  "clip_upper u xs = map (map_option (\<lambda>x. min x u)) xs"

text \<open>\<open>s.replace(0, np.nan)\<close> and \<open>s.fillna(0)\<close>.\<close>

definition replace_zero_nan :: "series \<Rightarrow> series" where
  "replace_zero_nan xs = map (\<lambda>x. if x = Some 0 then None else x) xs"

definition fillna_zero :: "series \<Rightarrow> series" where
  "fillna_zero xs = map (\<lambda>x. case x of None \<Rightarrow> Some 0 | Some v \<Rightarrow> Some v) xs"

text \<open>\<open>np.where(cond, a, b)\<close> on arrays of one length; a scalar argument is the constant series.\<close>

definition np_where :: "bool list \<Rightarrow> series \<Rightarrow> series \<Rightarrow> series" where
  "np_where cond a b = map (\<lambda>(c, x, y). if c then x else y) (zip cond (zip a b))"

definition scalar :: "'a list \<Rightarrow> real \<Rightarrow> series" where
  "scalar df c = replicate (length df) (Some c)"

text \<open>
  \<open>s.ewm(alpha=\<alpha>, adjust=False).mean()\<close> with pandas' defaults (\<open>ignore_na=False\<close>,
  one observation required). The loop of pandas keeps the running mean \<open>weighted\<close> and
  the weight \<open>old_wt\<close> of the past:
  \<^verbatim>\<open>
  weighted = vals[0]; old_wt = 1.; output[0] = weighted
  for i in range(1, N):
      cur = vals[i]
      if weighted == weighted:             # the mean has started
          old_wt *= 1. - alpha
          if cur == cur:                   # an observation
              if weighted != cur:
                  weighted = (old_wt * weighted + alpha * cur) / (old_wt + alpha)
              old_wt = 1.
      elif cur == cur:
          weighted = cur
      output[i] = weighted
  \<close>
  Leading NaNs give NaN, the first observation starts the mean, a later NaN repeats the
  mean and ages its weight, and an observation equal to the mean leaves it as it is.
\<close>

definition ewm_update :: "real \<Rightarrow> real \<Rightarrow> real \<Rightarrow> real \<Rightarrow> real" where
  "ewm_update \<alpha> old_wt w c =
     (if w \<noteq> c then (old_wt * (1 - \<alpha>) * w + \<alpha> * c) / (old_wt * (1 - \<alpha>) + \<alpha>) else w)"

fun ewm_loop :: "real \<Rightarrow> pyfloat \<Rightarrow> real \<Rightarrow> series \<Rightarrow> series" where
  "ewm_loop \<alpha> weighted old_wt [] = []"
| "ewm_loop \<alpha> None old_wt (cur # rest) = cur # ewm_loop \<alpha> cur old_wt rest"
| "ewm_loop \<alpha> (Some w) old_wt (None # rest) =
     Some w # ewm_loop \<alpha> (Some w) (old_wt * (1 - \<alpha>)) rest"
| "ewm_loop \<alpha> (Some w) old_wt (Some c # rest) =
     Some (ewm_update \<alpha> old_wt w c) # ewm_loop \<alpha> (Some (ewm_update \<alpha> old_wt w c)) 1 rest"

definition ewm_mean :: "real \<Rightarrow> series \<Rightarrow> series" where
  "ewm_mean \<alpha> xs = ewm_loop \<alpha> None 1 xs"

text \<open>
  \<open>s.rolling(window=n, min_periods=n)\<close>: the value at a bar is the aggregate of the last
  \<open>n\<close> values when there are \<open>n\<close> of them and none is NaN, and NaN otherwise. \<open>past\<close> holds
  the values already seen, newest first, so the aggregate receives the window newest
  first; the aggregates used are symmetric. The callers pass positive constants for \<open>n\<close>.
\<close>

fun rolling_loop :: "(real list \<Rightarrow> pyfloat) \<Rightarrow> nat \<Rightarrow> series \<Rightarrow> series \<Rightarrow> series" where
  "rolling_loop agg n past [] = []"
| "rolling_loop agg n past (x # xs) =
     (let w = take n (x # past) in
      (if length w = n \<and> None \<notin> set w then agg (map the w) else None)
        # rolling_loop agg n (x # past) xs)"

definition rolling :: "(real list \<Rightarrow> pyfloat) \<Rightarrow> nat \<Rightarrow> series \<Rightarrow> series" where
  "rolling agg n xs = rolling_loop agg n [] xs"

definition agg_sum :: "real list \<Rightarrow> pyfloat" where
  "agg_sum w = Some (sum_list w)"

definition agg_mean :: "real list \<Rightarrow> pyfloat" where
  "agg_mean w = (if w = [] then None else Some (sum_list w / real (length w)))"

definition agg_min :: "real list \<Rightarrow> pyfloat" where
  "agg_min w = (case w of [] \<Rightarrow> None | x # xs \<Rightarrow> Some (fold min xs x))"

definition agg_max :: "real list \<Rightarrow> pyfloat" where
  "agg_max w = (case w of [] \<Rightarrow> None | x # xs \<Rightarrow> Some (fold max xs x))"

text \<open>\<open>std(ddof=0)\<close>: the population standard deviation of the window.\<close>

definition agg_std :: "real list \<Rightarrow> pyfloat" where
  "agg_std w =
     (if w = [] then None
      else let m = sum_list w / real (length w)
           in Some (sqrt (sum_list (map (\<lambda>x. (x - m)\<^sup>2) w) / real (length w))))"

section \<open>utils.py: the indicator library\<close>

text \<open>
  \<^verbatim>\<open>
  def ema(series, length):     return series.ewm(span=length, adjust=False).mean()
  def sma(series, length):     return series.rolling(window=length, min_periods=length).mean()
  def stdev(series, length):   return series.rolling(window=length, min_periods=length).std(ddof=0)
  def lowest(series, length):  return series.rolling(window=length, min_periods=length).min()
  def highest(series, length): return series.rolling(window=length, min_periods=length).max()
  def change(series):          return series.diff()
  \<close>
  A span of \<open>length\<close> is the smoothing constant \<open>2 / (length + 1)\<close>; pandas raises
  ValueError for a span below 1.
\<close>

definition ema :: "series \<Rightarrow> nat \<Rightarrow> py_exception + series" where
  "ema xs n = (if n < 1 then Inl ValueError else Inr (ewm_mean (2 / (real n + 1)) xs))"

definition sma :: "series \<Rightarrow> nat \<Rightarrow> series" where
  "sma xs n = rolling agg_mean n xs"

definition stdev :: "series \<Rightarrow> nat \<Rightarrow> series" where
  "stdev xs n = rolling agg_std n xs"

definition lowest :: "series \<Rightarrow> nat \<Rightarrow> series" where
  "lowest xs n = rolling agg_min n xs"

definition highest :: "series \<Rightarrow> nat \<Rightarrow> series" where
  "highest xs n = rolling agg_max n xs"

definition change :: "series \<Rightarrow> series" where
  "change xs = diff xs"

text \<open>A candle is one row of the OHLCV table; the data frame is the list of rows, oldest first.\<close>

record candle =
  timestamp :: int
  c_open :: pyfloat
  high :: pyfloat
  low :: pyfloat
  close :: pyfloat
  volume :: pyfloat

type_synonym dataframe = "candle list"

text \<open>
  \<^verbatim>\<open>
  def atr(df, length):
      high = df["high"]; low = df["low"]; close = df["close"]
      prev_close = close.shift(1)
      tr = pd.concat([(high - low), (high - prev_close).abs(), (low - prev_close).abs()],
                     axis=1).max(axis=1)
      return tr.rolling(window=length, min_periods=length).mean()
  \<close>
  \<open>max(axis=1)\<close> skips NaN and is NaN only for a row of NaNs.
\<close>

fun nanmax :: "pyfloat \<Rightarrow> pyfloat \<Rightarrow> pyfloat" where
  "nanmax (Some x) (Some y) = Some (max x y)"
| "nanmax (Some x) None = Some x"
| "nanmax None y = y"

definition true_range :: "dataframe \<Rightarrow> series" where
  "true_range df =
     (let h = map high df; l = map low df; prev_close = shift1 (map close df)
      in map (\<lambda>(a, b, c). nanmax (nanmax a b) c)
           (zip (map2 fsub h l)
             (zip (map fabs (map2 fsub h prev_close)) (map fabs (map2 fsub l prev_close)))))"

definition atr :: "dataframe \<Rightarrow> nat \<Rightarrow> series" where
  "atr df n = rolling agg_mean n (true_range df)"

section \<open>strategy.py: rsi and mfi\<close>

text \<open>
  \<^verbatim>\<open>
  def rsi(series, length):
      delta = series.diff()
      gain = delta.clip(lower=0)
      loss = -delta.clip(upper=0)
      avg_gain = gain.ewm(alpha=1/length, adjust=False).mean()
      avg_loss = loss.ewm(alpha=1/length, adjust=False).mean()
      rs = avg_gain / (avg_loss.replace(0, np.nan))
      rsi_vals = 100 - (100 / (1 + rs))
      return rsi_vals.fillna(0)
  \<close>
  \<open>1/length\<close> raises ZeroDivisionError for a length of 0.
\<close>

definition rsi_avg_gain :: "series \<Rightarrow> nat \<Rightarrow> series" where
  "rsi_avg_gain xs n = ewm_mean (1 / real n) (clip_lower 0 (diff xs))"

definition rsi_avg_loss :: "series \<Rightarrow> nat \<Rightarrow> series" where
  "rsi_avg_loss xs n = ewm_mean (1 / real n) (map fneg (clip_upper 0 (diff xs)))"

definition rsi_vals :: "series \<Rightarrow> series \<Rightarrow> series" where
  "rsi_vals avg_gain avg_loss =
     (let rs = map2 fdiv avg_gain (replace_zero_nan avg_loss)
      in map (\<lambda>r. fsub (Some 100) (fdiv (Some 100) (fadd (Some 1) r))) rs)"

definition rsi :: "series \<Rightarrow> nat \<Rightarrow> py_exception + series" where
  "rsi xs n =
     (if n = 0 then Inl ZeroDivisionError
      else Inr (fillna_zero (rsi_vals (rsi_avg_gain xs n) (rsi_avg_loss xs n))))"

text \<open>
  \<^verbatim>\<open>
  def mfi(high, low, close, volume, length):
      tp = (high + low + close) / 3.0
      prev_tp = tp.shift(1)
      mf = tp * volume
      pos_mf = mf.where(tp > prev_tp, 0.0)
      neg_mf = mf.where(tp < prev_tp, 0.0)
      pos = pos_mf.rolling(window=length, min_periods=length).sum()
      neg = neg_mf.rolling(window=length, min_periods=length).sum()
      ratio = pos / neg.replace(0, np.nan)
      mfi_vals = 100 - (100 / (1 + ratio))
      return mfi_vals.fillna(0)
  \<close>
\<close>

definition mfi :: "series \<Rightarrow> series \<Rightarrow> series \<Rightarrow> series \<Rightarrow> nat \<Rightarrow> series" where
  "mfi hi lo cl vol n =
     (let tp = map (\<lambda>s. fdiv s (Some 3)) (map2 fadd (map2 fadd hi lo) cl);
          prev_tp = shift1 tp;
          mf = map2 fmul tp vol;
          pos_mf = np_where (map2 fgt tp prev_tp) mf (scalar mf 0);
          neg_mf = np_where (map2 flt tp prev_tp) mf (scalar mf 0);
          pos = rolling agg_sum n pos_mf;
          neg = rolling agg_sum n neg_mf;
          ratio = map2 fdiv pos (replace_zero_nan neg);
          mfi_vals = map (\<lambda>r. fsub (Some 100) (fdiv (Some 100) (fadd (Some 1) r))) ratio
      in fillna_zero mfi_vals)"

section \<open>strategy.py: the strategy engine\<close>

text \<open>
  \<^verbatim>\<open>
  @dataclass
  class StrategyState:
      accumulation_streak: int = 0
      pending_signal: bool = False
      bars_since_squeeze: int = 0
      last_signal_bar_index: Optional[int] = None
  \<close>
\<close>

record strategy_state =
  accumulation_streak :: int
  pending_signal :: bool
  bars_since_squeeze :: int
  last_signal_bar_index :: "int option"

definition fresh_state :: strategy_state where
  "fresh_state = \<lparr>accumulation_streak = 0, pending_signal = False,
                   bars_since_squeeze = 0, last_signal_bar_index = None\<rparr>"

text \<open>
  \<open>_market_flow\<close>, the composite value: with the constants of the source,
  \<^verbatim>\<open>
  x_nu = change(low).abs()
  x_de = change(low).clip(lower=0)
  loss = ema(x_nu, 3)
  gain = ema(x_de, 3)
  cm1 = where(gain > 0, loss / gain, loss / 1e-6)
  cm2 = cm1 * 10.0
  cm3 = ema(cm2, 5)
  cm4 = lowest(low, 30)
  cm5 = highest(cm3, 30)
  cm6 = where(low == lowest(low, 60), 1, 0)
  cm7 = where(low <= cm4, (cm3 + cm5 * 2) / 2, 0)
  cm8 = 10.0 * ema(cm7, 3) / 618.0 * cm6
  chips_value = where(volume > 0, cm8, 0)
  is_raw_accumulation = (chips_value > 0.1) & (~chips_value.isna())
  \<close>
  The spans 3 and 5 are constants of the source, so these calls of \<open>ema\<close> return, and
  \<open>projr\<close> takes the series they return.
\<close>

definition chips_cm3 :: "dataframe \<Rightarrow> series" where
  "chips_cm3 df =
     (let lo = map low df;
          x_nu = map fabs (change lo);
          x_de = clip_lower 0 (change lo);
          loss = projr (ema x_nu 3);
          gain = projr (ema x_de 3);
          cm1 = np_where (map (\<lambda>g. fgt g (Some 0)) gain)
                  (map2 fdiv loss gain) (map (\<lambda>l. fdiv l (Some (1 / 1000000))) loss);
          cm2 = map (\<lambda>x. fmul x (Some 10)) cm1
      in projr (ema cm2 5))"

definition chips_cm7 :: "dataframe \<Rightarrow> series" where
  "chips_cm7 df =
     (let lo = map low df;
          cm3 = chips_cm3 df;
          cm4 = lowest lo 30;
          cm5 = highest cm3 30
      in np_where (map2 fle lo cm4)
           (map2 (\<lambda>a b. fdiv (fadd a (fmul b (Some 2))) (Some 2)) cm3 cm5) (scalar df 0))"

definition chips_cm6 :: "dataframe \<Rightarrow> series" where
  "chips_cm6 df =
     (let lo = map low df
      in np_where (map2 feq lo (lowest lo 60)) (scalar df 1) (scalar df 0))"

definition chips_value_series :: "dataframe \<Rightarrow> series" where
  "chips_value_series df =
     (let cm8 = map2 fmul (map (\<lambda>e. fdiv (fmul (Some 10) e) (Some 618)) (projr (ema (chips_cm7 df) 3)))
                  (chips_cm6 df)
      in np_where (map (\<lambda>v. fgt v (Some 0)) (map volume df)) cm8 (scalar df 0))"

definition is_raw_accumulation :: "dataframe \<Rightarrow> bool list" where
  "is_raw_accumulation df = map (\<lambda>c. fgt c (Some (1 / 10)) \<and> \<not> isna c) (chips_value_series df)"

text \<open>
  The stateful part of \<open>_market_flow\<close>; the dictionary it returns is the pair
  (\<open>chips_value\<close>, \<open>is_confirmed_accumulation\<close>), and the state it mutates is returned
  with it.
  \<^verbatim>\<open>
  if len(df) >= 1:
      if bool(is_raw_accumulation.iat[-1]):
          state.accumulation_streak += 1
      else:
          state.accumulation_streak = 0
  is_confirmed_accumulation = state.accumulation_streak >= 2
  return {"chips_value": float(chips_value.iat[-1]) if len(df) else 0.0,
          "is_confirmed_accumulation": is_confirmed_accumulation}
  \<close>
\<close>

definition market_flow :: "dataframe \<Rightarrow> strategy_state \<Rightarrow> (pyfloat \<times> bool) \<times> strategy_state" where
  "market_flow df st =
     (let st' = (if length df \<ge> 1 then
                   (if last (is_raw_accumulation df)
                    then st\<lparr>accumulation_streak := accumulation_streak st + 1\<rparr>
                    else st\<lparr>accumulation_streak := 0\<rparr>)
                 else st);
          is_confirmed_accumulation = (accumulation_streak st' \<ge> 2)
      in ((if df \<noteq> [] then last (chips_value_series df) else Some 0, is_confirmed_accumulation), st'))"

text \<open>
  \<open>_trend_rider\<close>: \<open>compute_signal\<close> reads only \<open>is_vix_spike\<close> from its result. The
  divergence and squeeze entries are computed without a side effect and are not read.
  \<^verbatim>\<open>
  wvf = where(highest(close, 22) > 0, (highest(close, 22) - low) / highest(close, 22) * 100, 0)
  sDev = 2.0 * stdev(wvf, 20)
  midLine = sma(wvf, 20)
  upperBand = midLine + sDev
  rangeHigh = highest(wvf, 22) * 0.85
  is_vix_spike = (wvf >= upperBand) | (wvf >= rangeHigh)
  "is_vix_spike": bool(is_vix_spike.iat[-1]) if len(df) else False
  \<close>
\<close>

definition wvf_series :: "dataframe \<Rightarrow> series" where
  "wvf_series df =
     (let hc = highest (map close df) 22
      in np_where (map (\<lambda>h. fgt h (Some 0)) hc)
           (map2 (\<lambda>h l. fmul (fdiv (fsub h l) h) (Some 100)) hc (map low df)) (scalar df 0))"

definition is_vix_spike_series :: "dataframe \<Rightarrow> bool list" where
  "is_vix_spike_series df =
     (let wvf = wvf_series df;
          sDev = map (\<lambda>s. fmul (Some 2) s) (stdev wvf 20);
          midLine = sma wvf 20;
          upperBand = map2 fadd midLine sDev;
          rangeHigh = map (\<lambda>h. fmul h (Some (85 / 100))) (highest wvf 22)
      in map (\<lambda>(w, u, r). fge w u \<or> fge w r) (zip wvf (zip upperBand rangeHigh)))"

definition is_vix_spike :: "dataframe \<Rightarrow> bool" where
  "is_vix_spike df = (if df \<noteq> [] then last (is_vix_spike_series df) else False)"

text \<open>
  \<open>_vwap_price_channel\<close>: \<open>compute_signal\<close> reads only \<open>upper\<close> from the tuple.
  \<^verbatim>\<open>
  hst = highest(high, length)
  new_high = high == hst
  h_vwap = anchored_vwap(high, volume, new_high)
  h_change = change(h_vwap)
  for i in range(len(df)):
      if bool(new_high.iat[i]):
          upper.iat[i] = float(hst.iat[i])
      elif i > 0:
          prev_upper = upper.iat[i - 1]
          if hst.iat[i] == hst.iat[i - 1]:
              upper.iat[i] = prev_upper + (h_change.iat[i] if not np.isnan(h_change.iat[i]) else 0)
          else:
              upper.iat[i] = min(hst.iat[i], prev_upper + (h_change.iat[i] if not ... else 0))
      else:
          upper.iat[i] = float(hst.iat[i])
  return (float(upper.iat[-1]), ...)
  \<close>
  Python's \<open>min(a, b)\<close> is \<open>b\<close> when \<open>b < a\<close> and \<open>a\<close> otherwise. \<open>upper.iat[-1]\<close> raises
  IndexError on an empty frame; on a non-empty frame nothing in the function raises.
\<close>

definition py_min :: "pyfloat \<Rightarrow> pyfloat \<Rightarrow> pyfloat" where
  "py_min a b = (if flt b a then b else a)"

definition channel_upper_value :: "(pyfloat \<times> pyfloat) option \<Rightarrow> bool \<times> pyfloat \<times> pyfloat \<Rightarrow> pyfloat" where
  "channel_upper_value prev row =
     (case row of (new_high, hst, h_change) \<Rightarrow>
        if new_high then hst
        else case prev of
               Some (prev_upper, prev_hst) \<Rightarrow>
                 if feq hst prev_hst
                 then fadd prev_upper (if isna h_change then Some 0 else h_change)
                 else py_min hst (fadd prev_upper (if isna h_change then Some 0 else h_change))
             | None \<Rightarrow> hst)"

text \<open>\<open>prev\<close> is \<open>(upper[i - 1], hst[i - 1])\<close>, and \<open>None\<close> at the first bar.\<close>

fun channel_upper_loop :: "(pyfloat \<times> pyfloat) option \<Rightarrow> (bool \<times> pyfloat \<times> pyfloat) list \<Rightarrow> series" where
  "channel_upper_loop prev [] = []"
| "channel_upper_loop prev (row # rest) =
     channel_upper_value prev row
       # channel_upper_loop (Some (channel_upper_value prev row, fst (snd row))) rest"

definition vwap_price_channel_upper :: "dataframe \<Rightarrow> nat \<Rightarrow> py_exception + pyfloat" where
  "vwap_price_channel_upper df n =
     (let hi = map high df;
          hst = highest hi n;
          new_high = map2 feq hi hst
      in case anchored_vwap hi (map volume df) new_high of
           Inl e \<Rightarrow> Inl e
         | Inr h_vwap \<Rightarrow>
             (let upper = channel_upper_loop None (zip new_high (zip hst (change h_vwap)))
              in if upper = [] then Inl IndexError else Inr (last upper)))"

text \<open>
  \<^verbatim>\<open>
  def compute_signal(df, state):
      mf = _market_flow(df, state)
      tr = _trend_rider(df)
      upper, lower, mid, hst, lst, dir, dir2 = _vwap_price_channel(df, 20)
      accumulation_signal = mf["is_confirmed_accumulation"]
      panic_mode = tr["is_vix_spike"]
      normal_entry = accumulation_signal and (not panic_mode)
      if accumulation_signal and panic_mode:
          state.pending_signal = True
      pending_entry = state.pending_signal and (not panic_mode)
      if pending_entry:
          state.pending_signal = False
      long_condition = normal_entry or pending_entry
      sl_price_series = df["close"] - atr(df, 14) * 1.5
      sl_price = float(sl_price_series.iat[-1]) if len(df) else np.nan
      if long_condition:
          state.last_signal_bar_index = len(df) - 1
      bars_since = 0
      if state.last_signal_bar_index is not None:
          bars_since = max(0, (len(df) - 1) - state.last_signal_bar_index)
      return {"long_condition": ..., "tp_target": float(upper), "sl_price": ...,
              "chips_value": ..., "bars_since": ..., "pending_signal": state.pending_signal}
  \<close>
  The state object is mutated in place, so the model returns it also when the call raises.
\<close>

record signal_result =
  long_condition :: bool
  tp_target :: pyfloat
  sl_price :: pyfloat
  chips_value :: pyfloat
  bars_since :: int
  r_pending_signal :: bool

text \<open>
  The entry resolution, lines \<open>normal_entry = ...\<close> to \<open>state.pending_signal = False\<close>:
  the two kinds of entry and the state with its pending flag updated.
\<close>

definition entry_resolution :: "bool \<Rightarrow> bool \<Rightarrow> strategy_state \<Rightarrow> bool \<times> bool \<times> strategy_state" where
  "entry_resolution accumulation_signal panic_mode st =
     (let normal_entry = (accumulation_signal \<and> \<not> panic_mode);
          st2 = (if accumulation_signal \<and> panic_mode then st\<lparr>pending_signal := True\<rparr> else st);
          pending_entry = (pending_signal st2 \<and> \<not> panic_mode);
          st3 = (if pending_entry then st2\<lparr>pending_signal := False\<rparr> else st2)
      in (normal_entry, pending_entry, st3))"

definition compute_signal :: "dataframe \<Rightarrow> strategy_state \<Rightarrow> (py_exception + signal_result) \<times> strategy_state" where
  "compute_signal df st =
     (let (mf, st1) = market_flow df st
      in case vwap_price_channel_upper df 20 of
           Inl e \<Rightarrow> (Inl e, st1)
         | Inr upper \<Rightarrow>
             (let accumulation_signal = snd mf;
                  panic_mode = is_vix_spike df;
                  (normal_entry, pending_entry, st3) = entry_resolution accumulation_signal panic_mode st1;
                  long = (normal_entry \<or> pending_entry);
                  sl_price_series = map2 fsub (map close df) (map (\<lambda>a. fmul a (Some (3 / 2))) (atr df 14));
                  sl = (if df \<noteq> [] then last sl_price_series else None);
                  st4 = (if long then st3\<lparr>last_signal_bar_index := Some (int (length df) - 1)\<rparr> else st3);
                  since = (case last_signal_bar_index st4 of
                             None \<Rightarrow> 0
                           | Some l \<Rightarrow> max 0 ((int (length df) - 1) - l))
              in (Inr \<lparr>long_condition = long, tp_target = upper, sl_price = sl,
                       chips_value = fst mf, bars_since = since,
                       r_pending_signal = pending_signal st4\<rparr>, st4)))"

text \<open>
  Successive evaluations on one state, as the scanner makes them for one pair: the list of
  results, up to and including the first call that raises.
\<close>

fun compute_signals :: "strategy_state \<Rightarrow> dataframe list \<Rightarrow> (py_exception + signal_result) list \<times> strategy_state" where
  "compute_signals st [] = ([], st)"
| "compute_signals st (df # dfs) =
     (case compute_signal df st of
        (Inl e, st') \<Rightarrow> ([Inl e], st')
      | (Inr r, st') \<Rightarrow> (let (rs, st'') = compute_signals st' dfs in (Inr r # rs, st'')))"

section \<open>scanner.py: the pair scanner\<close>

text \<open>
  \<^verbatim>\<open>
  @dataclass
  class PairState:
      symbol: str
      timeframe: str
      market_type: str  # spot or futures
      state: StrategyState = field(default_factory=StrategyState)
      ohlcv: List[List[float]] = field(default_factory=list)
      last_closed_ts: Optional[int] = None
  \<close>
\<close>

record pair_state =
  symbol :: string
  timeframe :: string
  market_type :: string
  state :: strategy_state
  ohlcv :: "candle list"
  last_closed_ts :: "int option"

text \<open>The dictionaries put on the two queues.\<close>

datatype status_update =
  Status string string string int string
    \<comment> \<open>symbol, market\_type, timeframe, last\_ts, mode\<close>
| ErrorStatus string string string string string
    \<comment> \<open>symbol, market\_type, timeframe, error, mode\<close>

record signal =
  sig_symbol :: string
  sig_market_type :: string
  sig_timeframe :: string
  signal_time :: int
  current_price :: pyfloat
  sig_bars_since :: int
  upper_target :: pyfloat
  atr_stop :: pyfloat
  strength :: pyfloat

datatype effect = StatusPut status_update | SignalPut signal | Sleep real

text \<open>
  What the transport call at the head of the loop body does: it returns the rows or it
  raises. \<open>str(e)\<close> is the message of the exception.
\<close>

datatype fetch_result = Fetched "candle list" | Raises string

fun exception_str :: "py_exception \<Rightarrow> string" where
  "exception_str (TransportError m) = m"
| "exception_str IndexError = ''index -1 is out of bounds for axis 0 with size 0''"
| "exception_str ZeroDivisionError = ''float division by zero''"
| "exception_str ValueError = ''span must satisfy: span >= 1''"

definition ohlcv_to_df :: "candle list \<Rightarrow> dataframe" where
  "ohlcv_to_df rows = rows"

text \<open>
  One pass of the body of \<open>while True\<close> in \<open>_watch_pair\<close>, for what the transport call
  gave: the exception that leaves the body, if any, the pair and the effects in order.
  \<^verbatim>\<open>
  ohlcv = await exch.watchOHLCV(...)    # or fetch_ohlcv
  if not ohlcv:
      await asyncio.sleep(0.1)
      continue
  df = ohlcv_to_df(ohlcv)
  last_ts = int(df.index[-1])
  if pair.last_closed_ts is None or last_ts > pair.last_closed_ts:
      pair.last_closed_ts = last_ts
      pair.ohlcv = ohlcv
      status_queue.put({... "last_ts": last_ts, "mode": self.mode})
      sig = compute_signal(df, pair.state)
      if sig["long_condition"]:
          signal_queue.put({... "signal_time": last_ts,
                            "current_price": float(df["close"].iat[-1]), ...})
  await asyncio.sleep(0)
  \<close>
\<close>

definition watch_pair_body ::
  "string \<Rightarrow> pair_state \<Rightarrow> fetch_result \<Rightarrow> py_exception option \<times> pair_state \<times> effect list" where
  "watch_pair_body mode pair fr =
     (case fr of
        Raises m \<Rightarrow> (Some (TransportError m), pair, [])
      | Fetched rows \<Rightarrow>
          if rows = [] then (None, pair, [Sleep (1 / 10)])
          else
            (let df = ohlcv_to_df rows;
                 last_ts = timestamp (last df)
             in if (case last_closed_ts pair of None \<Rightarrow> True | Some seen \<Rightarrow> last_ts > seen) then
                  (let pair1 = pair\<lparr>last_closed_ts := Some last_ts, ohlcv := rows\<rparr>;
                       put = StatusPut (Status (symbol pair1) (market_type pair1) (timeframe pair1) last_ts mode)
                   in case compute_signal df (state pair1) of
                        (Inl e, st') \<Rightarrow> (Some e, pair1\<lparr>state := st'\<rparr>, [put])
                      | (Inr sg, st') \<Rightarrow>
                          (None, pair1\<lparr>state := st'\<rparr>,
                           [put] @
                           (if long_condition sg then
                              [SignalPut \<lparr>sig_symbol = symbol pair1, sig_market_type = market_type pair1,
                                 sig_timeframe = timeframe pair1, signal_time = last_ts,
                                 current_price = close (last df), sig_bars_since = bars_since sg,
                                 upper_target = tp_target sg, atr_stop = sl_price sg,
                                 strength = chips_value sg\<rparr>]
                            else []) @
                           [Sleep 0]))
                else (None, pair, [Sleep 0])))"

text \<open>
  \<open>_watch_pair\<close>: the \<open>try\<close> encloses the whole \<open>while True\<close> loop, and the handler is
  \<^verbatim>\<open>
  except Exception as e:
      status_queue.put({... "error": str(e), "mode": self.mode})
      await asyncio.sleep(1)
  \<close>
  after which the coroutine ends. The task is driven by the list of what its successive
  transport calls do; when the list is used up the task is suspended in its next call.
\<close>

datatype task_status = Awaiting | Returned

fun watch_pair :: "string \<Rightarrow> pair_state \<Rightarrow> fetch_result list \<Rightarrow> task_status \<times> pair_state \<times> effect list" where
  "watch_pair mode pair [] = (Awaiting, pair, [])"
| "watch_pair mode pair (fr # frs) =
     (case watch_pair_body mode pair fr of
        (Some e, pair', effs) \<Rightarrow>
          (Returned, pair',
           effs @ [StatusPut (ErrorStatus (symbol pair') (market_type pair') (timeframe pair')
                                (exception_str e) mode),
                   Sleep 1])
      | (None, pair', effs) \<Rightarrow>
          (let (status, pair'', effs') = watch_pair mode pair' frs
           in (status, pair'', effs @ effs')))"

section \<open>Example inputs\<close>

text \<open>
  A bar with all prices at 10, a bar whose low drops to 9, and the frame of 59 flat bars
  followed by the drop: on its last bar the low touches its 60-bar and 30-bar lows, so
  the composite value is large, and the fear index is at its 22-bar high.
\<close>

definition flat_bar :: candle where
  "flat_bar = \<lparr>timestamp = 1, c_open = Some 10, high = Some 10, low = Some 10, close = Some 10, volume = Some 1\<rparr>"

definition drop_bar :: candle where
  "drop_bar = \<lparr>timestamp = 2, c_open = Some 10, high = Some 10, low = Some 9, close = Some 10, volume = Some 1\<rparr>"

definition accumulation_frame :: dataframe where
  "accumulation_frame = replicate 59 flat_bar @ [drop_bar]"

text \<open>A pair as the coordinator creates it.\<close>

definition btc_pair :: pair_state where
  "btc_pair = \<lparr>symbol = ''BTC/USDT'', timeframe = ''1h'', market_type = ''spot'',
                state = fresh_state, ohlcv = [], last_closed_ts = None\<rparr>"

section \<open>Properties of anchored\_vwap\<close>

lemma vwap_value_no_zero_division: "vwap_value acc \<noteq> Inl ZeroDivisionError"
  by (cases acc; cases "snd acc") (auto simp: vwap_value_def py_truediv_def)

lemma vwap_value_Inr: "vwap_value acc = Inr (if fgt (snd acc) (Some 0) then fdiv (fst acc) (snd acc) else None)"
  by (cases acc; cases "snd acc") (auto simp: vwap_value_def py_truediv_def)

lemma anchored_vwap_loop_total:
  "length vs = length ps \<Longrightarrow> length an = length ps \<Longrightarrow>
   anchored_vwap_loop acc ps vs an =
     Inr (map (\<lambda>c. if fgt (snd c) (Some 0) then fdiv (fst c) (snd c) else None) (vwap_accs acc ps vs an))"
proof (induction ps arbitrary: acc vs an)
  case Nil
  then show ?case by simp
next
  case (Cons p ps)
  then obtain v vs' a an' where vs: "vs = v # vs'" and an: "an = a # an'"
    by (cases vs; cases an) auto
  with Cons.prems have "length vs' = length ps" "length an' = length ps" by simp_all
  from Cons.IH [OF this] show ?case
    by (simp add: vs an Let_def vwap_value_Inr)
qed

lemma length_vwap_accs:
  "length vs = length ps \<Longrightarrow> length an = length ps \<Longrightarrow> length (vwap_accs acc ps vs an) = length ps"
proof (induction ps arbitrary: acc vs an)
  case Nil
  then show ?case by simp
next
  case (Cons p ps)
  then obtain v vs' a an' where vs: "vs = v # vs'" and an: "an = a # an'"
    by (cases vs; cases an) auto
  with Cons.prems have "length vs' = length ps" "length an' = length ps" by simp_all
  from Cons.IH [OF this] show ?case
    by (simp add: vs an Let_def)
qed

lemma vwap_accs_nth:
  "length vs = length ps \<Longrightarrow> length an = length ps \<Longrightarrow> i < length ps \<Longrightarrow>
   vwap_accs acc ps vs an ! i =
     vwap_step (if i = 0 then acc else vwap_accs acc ps vs an ! (i - 1)) (ps ! i) (vs ! i) (an ! i)"
proof (induction ps arbitrary: acc vs an i)
  case Nil
  then show ?case by simp
next
  case (Cons p ps)
  then obtain v vs' a an' where vs: "vs = v # vs'" and an: "an = a # an'"
    by (cases vs; cases an) auto
  with Cons.prems have len: "length vs' = length ps" "length an' = length ps" by simp_all
  show ?case
  proof (cases i)
    case 0
    then show ?thesis by (simp add: vs an Let_def)
  next
    case (Suc j)
    with Cons.prems have "j < length ps" by simp
    from Cons.IH [OF len this, of "vwap_step acc p v a"] Suc show ?thesis
      by (cases j) (simp_all add: vs an Let_def)
  qed
qed

lemma anchored_vwap_loop_no_zero_division:
  "anchored_vwap_loop acc ps vs an \<noteq> Inl ZeroDivisionError"
proof (induction ps arbitrary: acc vs an)
  case Nil
  then show ?case by simp
next
  case (Cons p ps)
  show ?case
  proof (cases vs)
    case Nil
    then show ?thesis by (cases an) simp_all
  next
    case vs: (Cons v vs')
    show ?thesis
    proof (cases an)
      case Nil
      then show ?thesis by simp
    next
      case an: (Cons a an')
      from Cons.IH [of "vwap_step acc p v a" vs' an'] show ?thesis
        by (auto simp: vs an Let_def vwap_value_Inr split: sum.splits)
    qed
  qed
qed

section \<open>Properties of the series operations, the strategy and the scanner\<close>

lemma length_ewm_loop [simp]: "length (ewm_loop \<alpha> w ow xs) = length xs"
  by (induction \<alpha> w ow xs rule: ewm_loop.induct) (simp_all add: Let_def)

lemma length_ewm_mean [simp]: "length (ewm_mean \<alpha> xs) = length xs"
  by (simp add: ewm_mean_def)

lemma length_rolling_loop [simp]: "length (rolling_loop agg n past xs) = length xs"
  by (induction xs arbitrary: past) (simp_all add: Let_def)

lemma length_rolling [simp]: "length (rolling agg n xs) = length xs"
  by (simp add: rolling_def)

lemma length_shift1 [simp]: "length (shift1 xs) = length xs"
  by (cases xs) (simp_all add: shift1_def)

lemma length_diff [simp]: "length (diff xs) = length xs"
  by (simp add: diff_def)

lemma rolling_loop_short:
  "length past + length xs < n \<Longrightarrow> rolling_loop agg n past xs = replicate (length xs) None"
  by (induction xs arbitrary: past) (simp_all add: Let_def)

lemma rolling_short: "length xs < n \<Longrightarrow> rolling agg n xs = replicate (length xs) None"
  by (simp add: rolling_def rolling_loop_short)

lemma last_rolling_short: "xs \<noteq> [] \<Longrightarrow> length xs < n \<Longrightarrow> last (rolling agg n xs) = None"
  by (simp add: rolling_short)

lemma length_true_range [simp]: "length (true_range df) = length df"
  by (simp add: true_range_def Let_def)

lemma channel_upper_loop_length [simp]: "length (channel_upper_loop prev xs) = length xs"
  by (induction prev xs rule: channel_upper_loop.induct) (simp_all add: Let_def)

lemma vwap_price_channel_upper_cases:
  "vwap_price_channel_upper df n = Inl IndexError \<and> df = [] \<or>
   (\<exists>u. vwap_price_channel_upper df n = Inr u) \<and> df \<noteq> []"
proof -
  let ?hi = "map high df"
  let ?nh = "map2 feq ?hi (highest ?hi n)"
  have len: "length (map volume df) = length ?hi" "length ?nh = length ?hi"
    by (simp_all add: highest_def)
  note tot = anchored_vwap_loop_total [OF len, of "(Some 0, Some 0)"]
  have la: "length (vwap_accs (Some 0, Some 0) ?hi (map volume df) ?nh) = length df"
    using length_vwap_accs [OF len] by simp
  show ?thesis
  proof (cases "df = []")
    case True
    then show ?thesis
      by (simp add: vwap_price_channel_upper_def anchored_vwap_def)
  next
    case False
    have "channel_upper_loop None (zip ?nh (zip (highest ?hi n)
            (change (map (\<lambda>c. if fgt (snd c) (Some 0) then fdiv (fst c) (snd c) else None)
                 (vwap_accs (Some 0, Some 0) ?hi (map volume df) ?nh))))) \<noteq> []"
      (is "?u \<noteq> []")
    proof
      assume "?u = []"
      then have "length ?u = 0" by simp
      then show False using False la by (simp add: highest_def change_def)
    qed
    then show ?thesis using False
      by (simp add: vwap_price_channel_upper_def anchored_vwap_def tot Let_def)
  qed
qed

lemma market_flow_pending [simp]: "pending_signal (snd (market_flow df st)) = pending_signal st"
  by (simp add: market_flow_def Let_def)

lemma market_flow_last_index [simp]:
  "last_signal_bar_index (snd (market_flow df st)) = last_signal_bar_index st"
  by (simp add: market_flow_def Let_def)

lemma market_flow_streak:
  "accumulation_streak (snd (market_flow df st)) =
     (if df = [] then accumulation_streak st
      else if last (is_raw_accumulation df) then accumulation_streak st + 1 else 0)"
  by (cases df) (simp_all add: market_flow_def Let_def)

lemma market_flow_confirmed:
  "snd (fst (market_flow df st)) = (accumulation_streak (snd (market_flow df st)) \<ge> 2)"
  by (simp add: market_flow_def Let_def)

lemma compute_signal_empty:
  "compute_signal [] st = (Inl IndexError, st)"
  using vwap_price_channel_upper_cases [of "[]" 20]
  by (simp add: compute_signal_def market_flow_def Let_def)

lemma compute_signal_unfold:
  assumes "df \<noteq> []"
  shows "\<exists>u. compute_signal df st =
    (let st1 = snd (market_flow df st);
         acc = snd (fst (market_flow df st));
         panic = is_vix_spike df;
         long = (\<not> panic \<and> (acc \<or> pending_signal st));
         idx = (if long then Some (int (length df) - 1) else last_signal_bar_index st);
         st4 = st1\<lparr>pending_signal := (panic \<and> (acc \<or> pending_signal st)), last_signal_bar_index := idx\<rparr>
     in (Inr \<lparr>long_condition = long, tp_target = u,
              sl_price = last (map2 fsub (map close df) (map (\<lambda>a. fmul a (Some (3 / 2))) (atr df 14))),
              chips_value = fst (fst (market_flow df st)),
              bars_since = (case idx of None \<Rightarrow> 0 | Some l \<Rightarrow> max 0 ((int (length df) - 1) - l)),
              r_pending_signal = (panic \<and> (acc \<or> pending_signal st))\<rparr>, st4))"
proof -
  from vwap_price_channel_upper_cases [of df 20] assms
  obtain u where u: "vwap_price_channel_upper df 20 = Inr u" by auto
  have "compute_signal df st =
    (let st1 = snd (market_flow df st);
         acc = snd (fst (market_flow df st));
         panic = is_vix_spike df;
         long = (\<not> panic \<and> (acc \<or> pending_signal st));
         idx = (if long then Some (int (length df) - 1) else last_signal_bar_index st);
         st4 = st1\<lparr>pending_signal := (panic \<and> (acc \<or> pending_signal st)), last_signal_bar_index := idx\<rparr>
     in (Inr \<lparr>long_condition = long, tp_target = u,
              sl_price = last (map2 fsub (map close df) (map (\<lambda>a. fmul a (Some (3 / 2))) (atr df 14))),
              chips_value = fst (fst (market_flow df st)),
              bars_since = (case idx of None \<Rightarrow> 0 | Some l \<Rightarrow> max 0 ((int (length df) - 1) - l)),
              r_pending_signal = (panic \<and> (acc \<or> pending_signal st))\<rparr>, st4))"
    using u assms
    by (cases "is_vix_spike df"; cases "snd (fst (market_flow df st))"; cases "pending_signal st")
       (simp_all add: compute_signal_def entry_resolution_def Let_def case_prod_beta)
  then show ?thesis ..
qed

lemma compute_signal_nonempty:
  assumes "df \<noteq> []"
  shows "\<exists>r. fst (compute_signal df st) = Inr r \<and>
     long_condition r = (\<not> is_vix_spike df \<and> (snd (fst (market_flow df st)) \<or> pending_signal st)) \<and>
     r_pending_signal r = pending_signal (snd (compute_signal df st)) \<and>
     bars_since r = (case last_signal_bar_index (snd (compute_signal df st)) of
                       None \<Rightarrow> 0 | Some l \<Rightarrow> max 0 ((int (length df) - 1) - l))"
  using compute_signal_unfold [OF assms, of st] by (auto simp: Let_def)

lemma compute_signal_state:
  assumes "df \<noteq> []"
  shows "pending_signal (snd (compute_signal df st)) =
           (is_vix_spike df \<and> (snd (fst (market_flow df st)) \<or> pending_signal st))"
    and "accumulation_streak (snd (compute_signal df st)) = accumulation_streak (snd (market_flow df st))"
    and "last_signal_bar_index (snd (compute_signal df st)) =
           (if \<not> is_vix_spike df \<and> (snd (fst (market_flow df st)) \<or> pending_signal st)
            then Some (int (length df) - 1) else last_signal_bar_index st)"
  using compute_signal_unfold [OF assms, of st] by (auto simp: Let_def)

text \<open>
  Claim C8: whenever \<open>compute_signal\<close> returns, \<open>bars_since\<close> is at least 0, and when
  \<open>long_condition\<close> holds it is 0 and the state records the index of the current bar,
  \<open>len(df) - 1\<close>, as the last signal bar.
\<close>
theorem bars_since_nonneg_zero_on_entry:
  "fst (compute_signal df st) = Inr r \<Longrightarrow>
   0 \<le> bars_since r \<and>
   (long_condition r \<longrightarrow>
      bars_since r = 0 \<and>
      last_signal_bar_index (snd (compute_signal df st)) = Some (int (length df) - 1))"
proof -
  assume r: "fst (compute_signal df st) = Inr r"
  then have ne: "df \<noteq> []" by (auto simp: compute_signal_empty)
  from compute_signal_unfold [OF ne, of st] r show ?thesis
    by (auto simp: Let_def split: option.splits)
qed

text \<open>
  Claim C10: if the pending flag is set before an evaluation and clear after it, the
  evaluation returned with \<open>long_condition\<close> true.
\<close>
theorem pending_cleared_only_by_entry:
  "pending_signal st \<Longrightarrow> \<not> pending_signal (snd (compute_signal df st)) \<Longrightarrow>
   \<exists>r. fst (compute_signal df st) = Inr r \<and> long_condition r"
proof -
  assume p: "pending_signal st" and q: "\<not> pending_signal (snd (compute_signal df st))"
  then have ne: "df \<noteq> []" by (auto simp: compute_signal_empty)
  from compute_signal_unfold [OF ne, of st] p q show ?thesis
    by (auto simp: Let_def)
qed






lemma length_np_where [simp]: "length (np_where c a b) = min (length c) (min (length a) (length b))"
  by (simp add: np_where_def)

lemma length_scalar [simp]: "length (scalar df c) = length df"
  by (simp add: scalar_def)

lemma ema_returns: "0 < n \<Longrightarrow> ema xs n = Inr (ewm_mean (2 / (real n + 1)) xs)"
  by (simp add: ema_def)

lemma length_ema [simp]: "0 < n \<Longrightarrow> length (projr (ema xs n)) = length xs"
  by (simp add: ema_returns)

lemma length_chips_value_series [simp]: "length (chips_value_series df) = length df"
  by (simp add: chips_value_series_def chips_cm7_def chips_cm6_def chips_cm3_def Let_def
      lowest_def highest_def change_def clip_lower_def)

lemma last_is_raw_accumulation:
  "df \<noteq> [] \<Longrightarrow>
   last (is_raw_accumulation df) = (\<exists>c. last (chips_value_series df) = Some c \<and> c > 1 / 10)"
proof -
  assume "df \<noteq> []"
  then have ne: "chips_value_series df \<noteq> []"
    using length_chips_value_series [of df] by (metis length_0_conv)
  show ?thesis
    by (cases "last (chips_value_series df)") (simp_all add: is_raw_accumulation_def last_map ne)
qed

lemma compute_signals_streak_nonneg:
  "0 \<le> accumulation_streak st \<Longrightarrow> 0 \<le> accumulation_streak (snd (compute_signals st dfs))"
proof (induction dfs arbitrary: st)
  case Nil
  then show ?case by simp
next
  case (Cons df dfs)
  show ?case
  proof (cases "df = []")
    case True
    then show ?thesis using Cons.prems by (simp add: compute_signal_empty)
  next
    case False
    from compute_signal_unfold [OF False, of st] obtain r st' where
      c: "compute_signal df st = (Inr r, st')"
      and s: "accumulation_streak st' = accumulation_streak (snd (market_flow df st))"
      by (auto simp: Let_def)
    have "0 \<le> accumulation_streak st'"
      using Cons.prems by (simp add: s market_flow_streak)
    from Cons.IH [OF this] show ?thesis
      by (simp add: c case_prod_beta)
  qed
qed

text \<open>
  Claim C5: on a non-empty frame the streak becomes the old streak plus 1 when the raw
  accumulation flag of the last bar holds and 0 when it does not, in \<open>_market_flow\<close> and
  so in \<open>compute_signal\<close>; the flag is that the composite value is a number above 0.1;
  and a non-negative streak stays non-negative over any sequence of evaluations.
\<close>
theorem accumulation_streak_update:
  "df \<noteq> [] \<Longrightarrow>
   accumulation_streak (snd (market_flow df st)) =
     (if last (is_raw_accumulation df) then accumulation_streak st + 1 else 0) \<and>
   accumulation_streak (snd (compute_signal df st)) = accumulation_streak (snd (market_flow df st)) \<and>
   last (is_raw_accumulation df) = (\<exists>c. last (chips_value_series df) = Some c \<and> c > 1 / 10) \<and>
   (0 \<le> accumulation_streak st \<longrightarrow> 0 \<le> accumulation_streak (snd (compute_signals st dfs)))"
  using compute_signal_state(2) [of df st] last_is_raw_accumulation [of df]
    compute_signals_streak_nonneg [of st dfs]
  by (simp add: market_flow_streak)

lemma watch_pair_body_stale:
  assumes "rows \<noteq> []" "last_closed_ts pair = Some t" "timestamp (last rows) \<le> t"
  shows "watch_pair_body mode pair (Fetched rows) = (None, pair, [Sleep 0])"
  using assms by (simp add: watch_pair_body_def ohlcv_to_df_def Let_def)

lemma watch_pair_body_last_closed_ts:
  assumes "rows \<noteq> []"
  shows "\<exists>t'. last_closed_ts (fst (snd (watch_pair_body mode pair (Fetched rows)))) = Some t' \<and>
           timestamp (last rows) \<le> t'"
  using assms
  by (cases "last_closed_ts pair")
     (auto simp: watch_pair_body_def ohlcv_to_df_def Let_def split: prod.splits sum.splits)

lemma watch_pair_body_monotone:
  assumes "last_closed_ts pair = Some t"
  shows "\<exists>t'. last_closed_ts (fst (snd (watch_pair_body mode pair fr))) = Some t' \<and> t \<le> t'"
  using assms
  by (cases fr)
     (auto simp: watch_pair_body_def ohlcv_to_df_def Let_def split: prod.splits sum.splits)

lemma watch_pair_monotone:
  assumes "last_closed_ts pair = Some t"
  shows "\<exists>t'. last_closed_ts (fst (snd (watch_pair mode pair frs))) = Some t' \<and> t \<le> t'"
  using assms
proof (induction frs arbitrary: pair t)
  case Nil
  then show ?case by simp
next
  case (Cons fr frs)
  from watch_pair_body_monotone [OF Cons.prems, of mode fr]
  obtain t1 where t1: "last_closed_ts (fst (snd (watch_pair_body mode pair fr))) = Some t1" "t \<le> t1"
    by blast
  obtain ex pair1 effs where b: "watch_pair_body mode pair fr = (ex, pair1, effs)"
    by (cases "watch_pair_body mode pair fr") auto
  show ?case
  proof (cases ex)
    case None
    from Cons.IH [of pair1 t1 ] t1 b
    obtain t' where "last_closed_ts (fst (snd (watch_pair mode pair1 frs))) = Some t'" "t1 \<le> t'"
      by auto
    then show ?thesis using b None t1(2) by (auto simp: case_prod_beta)
  next
    case (Some e)
    then show ?thesis using b t1 by simp
  qed
qed

text \<open>
  Claim C4: a batch whose last timestamp is not later than \<open>last_closed_ts\<close> puts
  nothing on either queue and leaves the pair unchanged; feeding a second batch with the
  same last timestamp after a first one therefore puts nothing; and \<open>last_closed_ts\<close>
  never decreases, over one pass of the loop body and over any run of the task.
\<close>
theorem stale_batch_is_discarded:
  "(rows \<noteq> [] \<and> last_closed_ts pair = Some t \<and> timestamp (last rows) \<le> t \<longrightarrow>
      watch_pair_body mode pair (Fetched rows) = (None, pair, [Sleep 0])) \<and>
   (rows \<noteq> [] \<and> rows' \<noteq> [] \<and> timestamp (last rows') = timestamp (last rows) \<and>
    watch_pair_body mode pair (Fetched rows) = (ex, pair', effs) \<longrightarrow>
      watch_pair_body mode pair' (Fetched rows') = (None, pair', [Sleep 0])) \<and>
   (last_closed_ts pair = Some t \<longrightarrow>
      (\<exists>t'. last_closed_ts (fst (snd (watch_pair_body mode pair fr))) = Some t' \<and> t \<le> t') \<and>
      (\<exists>t'. last_closed_ts (fst (snd (watch_pair mode pair frs))) = Some t' \<and> t \<le> t'))"
proof (intro conjI impI)
  assume "rows \<noteq> [] \<and> last_closed_ts pair = Some t \<and> timestamp (last rows) \<le> t"
  then show "watch_pair_body mode pair (Fetched rows) = (None, pair, [Sleep 0])"
    by (simp add: watch_pair_body_stale)
next
  assume a: "rows \<noteq> [] \<and> rows' \<noteq> [] \<and> timestamp (last rows') = timestamp (last rows) \<and>
    watch_pair_body mode pair (Fetched rows) = (ex, pair', effs)"
  with watch_pair_body_last_closed_ts [of rows mode pair]
  obtain t' where "last_closed_ts pair' = Some t'" "timestamp (last rows') \<le> t'" by auto
  with a show "watch_pair_body mode pair' (Fetched rows') = (None, pair', [Sleep 0])"
    by (simp add: watch_pair_body_stale)
next
  assume "last_closed_ts pair = Some t"
  then show "\<exists>t'. last_closed_ts (fst (snd (watch_pair_body mode pair fr))) = Some t' \<and> t \<le> t'"
    by (rule watch_pair_body_monotone)
next
  assume "last_closed_ts pair = Some t"
  then show "\<exists>t'. last_closed_ts (fst (snd (watch_pair mode pair frs))) = Some t' \<and> t \<le> t'"
    by (rule watch_pair_monotone)
qed

lemma watch_pair_raises:
  "watch_pair mode pair (Raises m # frs) =
     (Returned, pair,
      [StatusPut (ErrorStatus (symbol pair) (market_type pair) (timeframe pair) m mode), Sleep 1])"
  by (simp add: watch_pair_body_def)

lemma length_rsi_avg [simp]:
  "length (rsi_avg_gain xs n) = length xs" "length (rsi_avg_loss xs n) = length xs"
  by (simp_all add: rsi_avg_gain_def rsi_avg_loss_def clip_lower_def clip_upper_def)

lemma length_rsi_vals [simp]: "length (rsi_vals g l) = min (length g) (length l)"
  by (simp add: rsi_vals_def replace_zero_nan_def Let_def)

lemma fillna_zero_no_nan: "None \<notin> set (fillna_zero xs)"
  by (auto simp: fillna_zero_def split: option.splits)

lemma rsi_vals_zero_loss:
  assumes "i < length g" "i < length l" "l ! i = Some 0"
  shows "rsi_vals g l ! i = None"
  using assms by (simp add: rsi_vals_def replace_zero_nan_def Let_def)

text \<open>
  Claim C1, as the code has it: where the smoothed average loss at a bar is zero, \<open>rsi\<close>
  replaces it by NaN before dividing and fills the NaN result with 0, so the RSI at that
  bar is exactly 0 (not 100), and no value of the returned series is NaN.
\<close>
theorem rsi_zero_avg_loss:
  assumes "0 < n" and "i < length xs" and "rsi_avg_loss xs n ! i = Some 0"
  shows "\<exists>r. rsi xs n = Inr r \<and> length r = length xs \<and> r ! i = Some 0 \<and> None \<notin> set r"
proof -
  have "rsi_vals (rsi_avg_gain xs n) (rsi_avg_loss xs n) ! i = None"
    using assms by (simp add: rsi_vals_zero_loss)
  then have "fillna_zero (rsi_vals (rsi_avg_gain xs n) (rsi_avg_loss xs n)) ! i = Some 0"
    using assms(2) by (simp add: fillna_zero_def)
  moreover have "length (fillna_zero (rsi_vals (rsi_avg_gain xs n) (rsi_avg_loss xs n))) = length xs"
    by (simp add: fillna_zero_def)
  ultimately show ?thesis using assms(1) by (simp add: rsi_def fillna_zero_no_nan)
qed

lemmas rsi_eval = rsi_def rsi_vals_def rsi_avg_gain_def rsi_avg_loss_def fillna_zero_def
  replace_zero_nan_def clip_lower_def clip_upper_def diff_def shift1_def ewm_mean_def ewm_update_def Let_def

text \<open>
  Claim C1 as stated fails: on the rising series 1, 2, 3 the average loss at bar 1 is
  zero and the RSI(14) there is 0, not 100.
\<close>
theorem rsi_zero_avg_loss_counterexample:
  "rsi_avg_loss [Some 1, Some 2, Some 3] 14 ! 1 = Some 0 \<and>
   rsi [Some 1, Some 2, Some 3] 14 = Inr [Some 0, Some 0, Some 0] \<and>
   [Some 0, Some 0, Some (0::real)] ! 1 \<noteq> Some 100"
  by (simp add: rsi_eval)

text \<open>The rising series 1, 2, 3 satisfies the hypotheses of the theorem for C1 at bar 1.\<close>
theorem rsi_zero_avg_loss_witness:
  "(0::nat) < 14 \<and> 1 < length [Some 1, Some 2, Some (3::real)] \<and>
   rsi_avg_loss [Some 1, Some 2, Some 3] 14 ! 1 = Some 0 \<and>
   (\<exists>r. rsi [Some 1, Some 2, Some 3] 14 = Inr r \<and> length r = length [Some 1, Some 2, Some (3::real)] \<and>
        r ! 1 = Some 0 \<and> None \<notin> set r)"
proof -
  have h: "rsi_avg_loss [Some 1, Some 2, Some 3] 14 ! 1 = Some 0"
    by (simp add: rsi_eval)
  from rsi_zero_avg_loss [of 14 1 "[Some 1, Some 2, Some 3]", OF _ _ h] h
  show ?thesis by simp
qed

lemma map2_fdiv_nan: "map2 fdiv (replicate k None) ys = replicate (min k (length ys)) None"
  by (induction k arbitrary: ys) (case_tac ys; simp)+

lemma mfi_short:
  assumes "length hi < n"
  shows "mfi hi lo cl vol n = replicate (length (mfi hi lo cl vol n)) (Some 0)"
proof -
  have r: "\<And>xs. length xs \<le> length hi \<Longrightarrow> rolling agg_sum n xs = replicate (length xs) None"
    using assms by (simp add: rolling_short)
  show ?thesis
    by (simp add: mfi_def Let_def r map2_fdiv_nan replace_zero_nan_def fillna_zero_def)
qed

lemma length_mfi_frame [simp]:
  "length (mfi (map high df) (map low df) (map close df) (map volume df) n) = length df"
  by (simp add: mfi_def Let_def fillna_zero_def replace_zero_nan_def)

lemma last_mfi_short:
  assumes "df \<noteq> []" "length df < n"
  shows "last (mfi (map high df) (map low df) (map close df) (map volume df) n) = Some 0"
proof -
  have "mfi (map high df) (map low df) (map close df) (map volume df) n = replicate (length df) (Some 0)"
    using mfi_short [of "map high df" n "map low df" "map close df" "map volume df"] assms(2)
    by simp
  then show ?thesis using assms(1) by simp
qed

lemma replicate_numeral: "replicate (numeral k) x = x # replicate (pred_numeral k) x"
  by (simp add: numeral_eq_Suc)

lemmas frame_eval = flat_bar_def drop_bar_def accumulation_frame_def replicate_numeral
  shift1_def diff_def clip_lower_def np_where_def scalar_def ewm_mean_def ewm_update_def
  rolling_def agg_sum_def agg_mean_def agg_min_def agg_max_def agg_std_def
  ema_def sma_def stdev_def lowest_def highest_def change_def true_range_def atr_def
  chips_cm3_def chips_cm7_def chips_cm6_def chips_value_series_def is_raw_accumulation_def
  market_flow_def wvf_series_def is_vix_spike_series_def is_vix_spike_def py_min_def
  vwap_price_channel_upper_def anchored_vwap_def vwap_step_def vwap_value_def py_truediv_def
  channel_upper_value_def entry_resolution_def compute_signal_def fresh_state_def Let_def

lemma ewm_loop_no_nan: "None \<notin> set xs \<Longrightarrow> None \<notin> set (ewm_loop \<alpha> w ow xs)"
  by (induction \<alpha> w ow xs rule: ewm_loop.induct) auto

lemma ewm_mean_first: "xs \<noteq> [] \<Longrightarrow> hd (ewm_mean \<alpha> xs) = hd xs"
  by (cases xs) (simp_all add: ewm_mean_def)

lemma ema_short_window:
  assumes "xs \<noteq> []" "length xs < n"
  shows "\<exists>r. ema xs n = Inr r \<and> length r = length xs \<and> hd r = hd xs \<and>
           (None \<notin> set xs \<longrightarrow> None \<notin> set r)"
proof -
  from assms(2) have "0 < n" by simp
  then have "ema xs n = Inr (ewm_mean (2 / (real n + 1)) xs)" by (rule ema_returns)
  then show ?thesis
    using assms(1) by (simp add: ewm_mean_first) (simp add: ewm_mean_def ewm_loop_no_nan)
qed

lemma fresh_state_no_entry:
  assumes "df \<noteq> []"
  shows "\<exists>r. fst (compute_signal df fresh_state) = Inr r \<and> \<not> long_condition r"
proof -
  have "\<not> snd (fst (market_flow df fresh_state))"
    using assms by (simp add: market_flow_confirmed market_flow_streak fresh_state_def)
  moreover have "\<not> pending_signal fresh_state" by (simp add: fresh_state_def)
  ultimately show ?thesis
    using compute_signal_nonempty [OF assms, of fresh_state] by auto
qed

text \<open>
  Claim C6, as the code has it: on a window shorter than the period the rolling
  indicators (\<open>sma\<close>, \<open>stdev\<close>, \<open>lowest\<close>, \<open>highest\<close>, \<open>atr\<close>) are NaN at the last bar,
  while \<open>ema\<close> returns a series that starts with the first input and has a number
  wherever the input has only numbers, and \<open>mfi\<close> returns 0 at the last bar; from a
  fresh state the entry decision is false on every non-empty frame.
\<close>
theorem short_window_not_ready:
  "(xs \<noteq> [] \<and> length xs < n \<longrightarrow>
      last (sma xs n) = None \<and> last (stdev xs n) = None \<and>
      last (lowest xs n) = None \<and> last (highest xs n) = None \<and>
      (\<exists>r. ema xs n = Inr r \<and> length r = length xs \<and> hd r = hd xs \<and>
           (None \<notin> set xs \<longrightarrow> None \<notin> set r))) \<and>
   (df \<noteq> [] \<and> length df < n \<longrightarrow>
      last (atr df n) = None \<and>
      last (mfi (map high df) (map low df) (map close df) (map volume df) n) = Some 0) \<and>
   (df \<noteq> [] \<longrightarrow> (\<exists>r. fst (compute_signal df fresh_state) = Inr r \<and> \<not> long_condition r))"
proof (intro conjI impI)
  assume a: "df \<noteq> [] \<and> length df < n"
  then have "true_range df \<noteq> []" "length (true_range df) < n"
    using length_true_range [of df] by (auto simp del: length_true_range)
  then show "last (atr df n) = None"
    by (simp add: atr_def last_rolling_short)
  from a show "last (mfi (map high df) (map low df) (map close df) (map volume df) n) = Some 0"
    by (simp add: last_mfi_short)
next
  assume "xs \<noteq> [] \<and> length xs < n"
  then show "\<exists>r. ema xs n = Inr r \<and> length r = length xs \<and> hd r = hd xs \<and>
           (None \<notin> set xs \<longrightarrow> None \<notin> set r)"
    by (simp add: ema_short_window)
qed (simp_all add: sma_def stdev_def lowest_def highest_def last_rolling_short fresh_state_no_entry)

text \<open>
  Claim C6 as stated fails: on a single bar, shorter than their periods, \<open>mfi\<close> and
  \<open>rsi\<close> with period 14 return the number 0 and \<open>ema\<close> with period 3 returns the
  bar's value, none of them NaN.
\<close>
theorem short_window_counterexample:
  "length [Some (10::real)] < 14 \<and>
   mfi [Some 10] [Some 10] [Some 10] [Some 1] 14 = [Some 0] \<and>
   last (mfi [Some 10] [Some 10] [Some 10] [Some 1] 14) \<noteq> None \<and>
   rsi [Some 10] 14 = Inr [Some 0] \<and> ema [Some 10] 3 = Inr [Some 10]"
  by (simp add: mfi_def rsi_eval ema_def rolling_def agg_sum_def np_where_def scalar_def)

text \<open>C6 as amended, on a single bar.\<close>
theorem short_window_not_ready_witness:
  "[Some (10::real)] \<noteq> [] \<and> length [Some (10::real)] < 20 \<and>
   last (sma [Some 10] 20) = None \<and> last (stdev [Some 10] 20) = None \<and>
   last (lowest [Some 10] 20) = None \<and> last (highest [Some 10] 20) = None \<and>
   ema [Some 10] 20 = Inr [Some 10] \<and>
   [flat_bar] \<noteq> [] \<and> length [flat_bar] < 14 \<and>
   last (atr [flat_bar] 14) = None \<and>
   last (mfi (map high [flat_bar]) (map low [flat_bar]) (map close [flat_bar]) (map volume [flat_bar]) 14)
     = Some 0 \<and>
   (\<exists>r. fst (compute_signal [flat_bar] fresh_state) = Inr r \<and> \<not> long_condition r)"
proof -
  have a: "[Some (10::real)] \<noteq> [] \<and> length [Some (10::real)] < 20" by simp
  have b: "[flat_bar] \<noteq> [] \<and> length [flat_bar] < 14" by simp
  from short_window_not_ready [of "[Some 10]" 20 "[flat_bar]"] a
  have 1: "last (sma [Some 10] 20) = None \<and> last (stdev [Some 10] 20) = None \<and>
   last (lowest [Some 10] 20) = None \<and> last (highest [Some 10] 20) = None"
    and "\<exists>r. ema [Some 10] 20 = Inr r \<and> length r = length [Some (10::real)] \<and>
           hd r = hd [Some (10::real)] \<and> (None \<notin> set [Some (10::real)] \<longrightarrow> None \<notin> set r)"
    by blast+
  then obtain r where r: "ema [Some 10] 20 = Inr r" "length r = length [Some (10::real)]"
    "hd r = hd [Some (10::real)]" by blast
  from r(2,3) have "r = [Some 10]" by (cases r) simp_all
  with r(1) have 3: "ema [Some 10] 20 = Inr [Some 10]" by simp
  from short_window_not_ready [of "[]" 14 "[flat_bar]"] b
  have 2: "last (atr [flat_bar] 14) = None \<and>
    last (mfi (map high [flat_bar]) (map low [flat_bar]) (map close [flat_bar]) (map volume [flat_bar]) 14)
      = Some 0 \<and>
    (\<exists>r. fst (compute_signal [flat_bar] fresh_state) = Inr r \<and> \<not> long_condition r)" by blast
  from a b 1 2 3 show ?thesis by blast
qed

text \<open>
  Claim C7: for series of one length processed in order, the accumulators after bar \<open>i\<close>
  are the bar's price times volume and its volume when the bar is an anchor bar, and the
  previous accumulators (zero before the first bar) plus these otherwise; the value at
  the bar is their quotient when the cumulative volume is positive; and two calls on the
  same series return the same result.
\<close>
theorem anchored_vwap_accumulators:
  assumes "length vs = length ps" and "length an = length ps" and "i < length ps"
  shows "vwap_accs (Some 0, Some 0) ps vs an ! i =
           (if an ! i then (fmul (ps ! i) (vs ! i), vs ! i)
            else (fadd (fst (if i = 0 then (Some 0, Some 0)
                             else vwap_accs (Some 0, Some 0) ps vs an ! (i - 1)))
                       (fmul (ps ! i) (vs ! i)),
                  fadd (snd (if i = 0 then (Some 0, Some 0)
                             else vwap_accs (Some 0, Some 0) ps vs an ! (i - 1)))
                       (vs ! i))) \<and>
         (\<exists>out. anchored_vwap ps vs an = Inr out \<and> length out = length ps \<and>
            out ! i = (if fgt (snd (vwap_accs (Some 0, Some 0) ps vs an ! i)) (Some 0)
                       then fdiv (fst (vwap_accs (Some 0, Some 0) ps vs an ! i))
                                 (snd (vwap_accs (Some 0, Some 0) ps vs an ! i))
                       else None)) \<and>
         (\<forall>out1 out2. anchored_vwap ps vs an = out1 \<longrightarrow> anchored_vwap ps vs an = out2 \<longrightarrow> out1 = out2)"
proof -
  note len = length_vwap_accs [OF assms(1,2), of "(Some 0, Some 0)"]
  have "vwap_accs (Some 0, Some 0) ps vs an ! i =
          vwap_step (if i = 0 then (Some 0, Some 0) else vwap_accs (Some 0, Some 0) ps vs an ! (i - 1))
            (ps ! i) (vs ! i) (an ! i)"
    by (rule vwap_accs_nth [OF assms])
  then have 1: "vwap_accs (Some 0, Some 0) ps vs an ! i =
           (if an ! i then (fmul (ps ! i) (vs ! i), vs ! i)
            else (fadd (fst (if i = 0 then (Some 0, Some 0)
                             else vwap_accs (Some 0, Some 0) ps vs an ! (i - 1)))
                       (fmul (ps ! i) (vs ! i)),
                  fadd (snd (if i = 0 then (Some 0, Some 0)
                             else vwap_accs (Some 0, Some 0) ps vs an ! (i - 1)))
                       (vs ! i)))"
    by (simp add: vwap_step_def)
  have 2: "\<exists>out. anchored_vwap ps vs an = Inr out \<and> length out = length ps \<and>
            out ! i = (if fgt (snd (vwap_accs (Some 0, Some 0) ps vs an ! i)) (Some 0)
                       then fdiv (fst (vwap_accs (Some 0, Some 0) ps vs an ! i))
                                 (snd (vwap_accs (Some 0, Some 0) ps vs an ! i))
                       else None)"
    using assms(3) len
    by (simp add: anchored_vwap_def anchored_vwap_loop_total [OF assms(1,2)])
  from 1 2 show ?thesis by blast
qed

text \<open>C7 on three bars, the last of which is an anchor bar.\<close>
theorem anchored_vwap_accumulators_witness:
  "length [Some 1, Some 3, Some (2::real)] = length [Some 10, Some 20, Some (30::real)] \<and>
   length [False, False, True] = length [Some 10, Some 20, Some (30::real)] \<and>
   2 < length [Some 10, Some 20, Some (30::real)] \<and>
   vwap_accs (Some 0, Some 0) [Some 10, Some 20, Some 30] [Some 1, Some 3, Some 2] [False, False, True] ! 1
     = (Some 70, Some 4) \<and>
   vwap_accs (Some 0, Some 0) [Some 10, Some 20, Some 30] [Some 1, Some 3, Some 2] [False, False, True] ! 2
     = (Some 60, Some 2) \<and>
   (\<exists>out. anchored_vwap [Some 10, Some 20, Some 30] [Some 1, Some 3, Some 2] [False, False, True] = Inr out \<and>
      length out = length [Some 10, Some 20, Some (30::real)] \<and> out ! 2 = Some 30)"
proof -
  have len: "length [Some 1, Some 3, Some (2::real)] = length [Some 10, Some 20, Some (30::real)]"
    "length [False, False, True] = length [Some 10, Some 20, Some (30::real)]"
    "2 < length [Some 10, Some 20, Some (30::real)]"
    by simp_all
  have e: "vwap_accs (Some 0, Some 0) [Some 10, Some 20, Some 30] [Some 1, Some 3, Some 2] [False, False, True] ! 1
     = (Some 70, Some 4)"
    "vwap_accs (Some 0, Some 0) [Some 10, Some 20, Some 30] [Some 1, Some 3, Some 2] [False, False, True] ! 2
     = (Some 60, Some 2)"
    by (simp_all add: vwap_step_def)
  from anchored_vwap_accumulators [OF len]
  obtain out where
    "anchored_vwap [Some 10, Some 20, Some 30] [Some 1, Some 3, Some 2] [False, False, True] = Inr out"
    "length out = length [Some 10, Some 20, Some (30::real)]"
    "out ! 2 = (if fgt (snd (vwap_accs (Some 0, Some 0) [Some 10, Some 20, Some 30]
                                [Some 1, Some 3, Some 2] [False, False, True] ! 2)) (Some 0)
                 then fdiv (fst (vwap_accs (Some 0, Some 0) [Some 10, Some 20, Some 30]
                                [Some 1, Some 3, Some 2] [False, False, True] ! 2))
                           (snd (vwap_accs (Some 0, Some 0) [Some 10, Some 20, Some 30]
                                [Some 1, Some 3, Some 2] [False, False, True] ! 2))
                 else None)"
    by blast
  then have "\<exists>out. anchored_vwap [Some 10, Some 20, Some 30] [Some 1, Some 3, Some 2] [False, False, True] = Inr out \<and>
      length out = length [Some 10, Some 20, Some (30::real)] \<and> out ! 2 = Some 30"
    unfolding e by simp
  with len e show ?thesis by blast
qed

text \<open>
  Claim C9: \<open>anchored_vwap\<close> never raises ZeroDivisionError, and on a bar where the
  cumulative volume is not positive (zero, negative or NaN) its value is NaN.
\<close>
theorem anchored_vwap_no_zero_division:
  "anchored_vwap ps vs an \<noteq> Inl ZeroDivisionError \<and>
   (length vs = length ps \<and> length an = length ps \<and> i < length ps \<and>
    \<not> fgt (snd (vwap_accs (Some 0, Some 0) ps vs an ! i)) (Some 0) \<longrightarrow>
      (\<exists>out. anchored_vwap ps vs an = Inr out \<and> out ! i = None))"
proof (intro conjI impI)
  show "anchored_vwap ps vs an \<noteq> Inl ZeroDivisionError"
    by (simp add: anchored_vwap_def anchored_vwap_loop_no_zero_division)
next
  assume a: "length vs = length ps \<and> length an = length ps \<and> i < length ps \<and>
    \<not> fgt (snd (vwap_accs (Some 0, Some 0) ps vs an ! i)) (Some 0)"
  then have len: "length vs = length ps" "length an = length ps" by simp_all
  from a length_vwap_accs [OF len, of "(Some 0, Some 0)"]
  show "\<exists>out. anchored_vwap ps vs an = Inr out \<and> out ! i = None"
    by (simp add: anchored_vwap_def anchored_vwap_loop_total [OF len])
qed

text \<open>C9 on two bars of volume zero.\<close>
theorem anchored_vwap_no_zero_division_witness:
  "anchored_vwap [Some 10, Some 20] [Some 0, Some 0] [True, False] \<noteq> Inl ZeroDivisionError \<and>
   \<not> fgt (snd (vwap_accs (Some 0, Some 0) [Some 10, Some 20] [Some 0, Some 0] [True, False] ! 1)) (Some 0) \<and>
   (\<exists>out. anchored_vwap [Some 10, Some 20] [Some 0, Some 0] [True, False] = Inr out \<and> out ! 1 = None) \<and>
   anchored_vwap [Some 10, Some 20] [Some 0, Some 0] [True, False] = Inr [None, None]"
proof -
  have h: "\<not> fgt (snd (vwap_accs (Some 0, Some 0) [Some 10, Some 20] [Some 0, Some 0] [True, False] ! 1)) (Some 0)"
    by (simp add: vwap_step_def)
  have e: "anchored_vwap [Some 10, Some 20] [Some 0, Some 0] [True, False] = Inr [None, None]"
    by (simp add: anchored_vwap_def vwap_step_def vwap_value_def py_truediv_def)
  from anchored_vwap_no_zero_division [of "[Some 10, Some 20]" "[Some 0, Some 0]" "[True, False]" 1] h e
  show ?thesis by simp
qed

lemma accumulation_frame_raw: "last (is_raw_accumulation accumulation_frame)"
  by (simp add: frame_eval)




lemma accumulation_frame_nonempty: "accumulation_frame \<noteq> []"
  by (simp add: accumulation_frame_def)

lemma compute_signal_flat_bar_pending:
  "compute_signal [flat_bar] (fresh_state\<lparr>pending_signal := True\<rparr>) =
     (Inr \<lparr>long_condition = True, tp_target = None, sl_price = None, chips_value = Some 0,
            bars_since = 0, r_pending_signal = False\<rparr>,
      \<lparr>accumulation_streak = 0, pending_signal = False, bars_since_squeeze = 0,
        last_signal_bar_index = Some 0\<rparr>)"
  by (simp add: frame_eval)


text \<open>
  C5 on the accumulation frame, where the flag holds and the streak goes from 1 to 2, and
  on a single flat bar, where it does not hold and the streak goes back to 0.
\<close>
theorem accumulation_streak_update_witness:
  "accumulation_frame \<noteq> [] \<and> last (is_raw_accumulation accumulation_frame) \<and>
   accumulation_streak (snd (market_flow accumulation_frame (fresh_state\<lparr>accumulation_streak := 1\<rparr>))) = 2 \<and>
   accumulation_streak (snd (compute_signal accumulation_frame (fresh_state\<lparr>accumulation_streak := 1\<rparr>))) = 2 \<and>
   (\<exists>c. last (chips_value_series accumulation_frame) = Some c \<and> c > 1 / 10) \<and>
   0 \<le> accumulation_streak (snd (compute_signals (fresh_state\<lparr>accumulation_streak := 1\<rparr>)
          [accumulation_frame, [flat_bar]])) \<and>
   [flat_bar] \<noteq> [] \<and> \<not> last (is_raw_accumulation [flat_bar]) \<and>
   accumulation_streak (snd (compute_signal [flat_bar] (fresh_state\<lparr>accumulation_streak := 1\<rparr>))) = 0"
proof -
  have calm: "\<not> last (is_raw_accumulation [flat_bar])"
    by (simp add: frame_eval)
  have k: "[flat_bar] \<noteq> []" by simp
  from accumulation_streak_update [OF accumulation_frame_nonempty,
      of "fresh_state\<lparr>accumulation_streak := 1\<rparr>" "[accumulation_frame, [flat_bar]]"]
    accumulation_frame_raw
  have 1: "accumulation_streak (snd (market_flow accumulation_frame (fresh_state\<lparr>accumulation_streak := 1\<rparr>))) = 2 \<and>
   accumulation_streak (snd (compute_signal accumulation_frame (fresh_state\<lparr>accumulation_streak := 1\<rparr>))) = 2 \<and>
   (\<exists>c. last (chips_value_series accumulation_frame) = Some c \<and> c > 1 / 10) \<and>
   0 \<le> accumulation_streak (snd (compute_signals (fresh_state\<lparr>accumulation_streak := 1\<rparr>)
          [accumulation_frame, [flat_bar]]))"
    by (simp add: fresh_state_def)
  from accumulation_streak_update [OF k, of "fresh_state\<lparr>accumulation_streak := 1\<rparr>" "[]"] calm
  have 2: "accumulation_streak (snd (compute_signal [flat_bar] (fresh_state\<lparr>accumulation_streak := 1\<rparr>))) = 0"
    by simp
  from 1 2 calm k accumulation_frame_nonempty accumulation_frame_raw show ?thesis
    by (intro conjI) simp_all
qed

text \<open>C8 on one calm bar with the pending flag set: the entry fires.\<close>
theorem bars_since_nonneg_zero_on_entry_witness:
  "fst (compute_signal [flat_bar] (fresh_state\<lparr>pending_signal := True\<rparr>)) =
     Inr \<lparr>long_condition = True, tp_target = None, sl_price = None, chips_value = Some 0,
           bars_since = 0, r_pending_signal = False\<rparr> \<and>
   last_signal_bar_index (snd (compute_signal [flat_bar] (fresh_state\<lparr>pending_signal := True\<rparr>)))
     = Some (int (length [flat_bar]) - 1)"
proof -
  have e: "fst (compute_signal [flat_bar] (fresh_state\<lparr>pending_signal := True\<rparr>)) =
     Inr \<lparr>long_condition = True, tp_target = None, sl_price = None, chips_value = Some 0,
           bars_since = 0, r_pending_signal = False\<rparr>"
    by (simp add: compute_signal_flat_bar_pending)
  from bars_since_nonneg_zero_on_entry [OF e] e show ?thesis by simp
qed

text \<open>C10 on one calm bar with the pending flag set.\<close>
theorem pending_cleared_only_by_entry_witness:
  "pending_signal (fresh_state\<lparr>pending_signal := True\<rparr>) \<and>
   \<not> pending_signal (snd (compute_signal [flat_bar] (fresh_state\<lparr>pending_signal := True\<rparr>))) \<and>
   (\<exists>r. fst (compute_signal [flat_bar] (fresh_state\<lparr>pending_signal := True\<rparr>)) = Inr r \<and> long_condition r)"
proof -
  have p: "pending_signal (fresh_state\<lparr>pending_signal := True\<rparr>)" by simp
  have q: "\<not> pending_signal (snd (compute_signal [flat_bar] (fresh_state\<lparr>pending_signal := True\<rparr>)))"
    by (simp add: compute_signal_flat_bar_pending)
  from pending_cleared_only_by_entry [OF p q] p q show ?thesis by blast
qed

lemma watch_pair_body_flat_bar:
  "watch_pair_body ''rest'' btc_pair (Fetched [flat_bar]) =
     (None, btc_pair\<lparr>ohlcv := [flat_bar], last_closed_ts := Some 1\<rparr>,
      [StatusPut (Status ''BTC/USDT'' ''spot'' ''1h'' 1 ''rest''), Sleep 0])"
proof -
  have "compute_signal [flat_bar] fresh_state =
     (Inr \<lparr>long_condition = False, tp_target = None, sl_price = None, chips_value = Some 0,
            bars_since = 0, r_pending_signal = False\<rparr>, fresh_state)"
    by (simp add: frame_eval)
  then show ?thesis
    by (simp add: watch_pair_body_def ohlcv_to_df_def btc_pair_def flat_bar_def)
qed

text \<open>
  C4 at concrete inputs: a bar stamped 1 against a pair that closed at 5, the same bar fed
  twice to a new pair, and a run of two batches.
\<close>
theorem stale_batch_is_discarded_witness:
  "watch_pair_body ''rest'' (btc_pair\<lparr>last_closed_ts := Some 5\<rparr>) (Fetched [flat_bar]) =
     (None, btc_pair\<lparr>last_closed_ts := Some 5\<rparr>, [Sleep 0]) \<and>
   watch_pair_body ''rest'' btc_pair (Fetched [flat_bar]) =
     (None, btc_pair\<lparr>ohlcv := [flat_bar], last_closed_ts := Some 1\<rparr>,
      [StatusPut (Status ''BTC/USDT'' ''spot'' ''1h'' 1 ''rest''), Sleep 0]) \<and>
   watch_pair_body ''rest'' (btc_pair\<lparr>ohlcv := [flat_bar], last_closed_ts := Some 1\<rparr>) (Fetched [flat_bar]) =
     (None, btc_pair\<lparr>ohlcv := [flat_bar], last_closed_ts := Some 1\<rparr>, [Sleep 0]) \<and>
   (\<exists>t'. last_closed_ts (fst (snd (watch_pair ''rest'' (btc_pair\<lparr>last_closed_ts := Some 5\<rparr>)
             [Fetched [flat_bar], Fetched [drop_bar]]))) = Some t' \<and> 5 \<le> t')"
proof -
  have a: "[flat_bar] \<noteq> [] \<and> last_closed_ts (btc_pair\<lparr>last_closed_ts := Some 5\<rparr>) = Some 5 \<and>
           timestamp (last [flat_bar]) \<le> 5"
    by (simp add: flat_bar_def)
  have b: "[flat_bar] \<noteq> [] \<and> [flat_bar] \<noteq> [] \<and> timestamp (last [flat_bar]) = timestamp (last [flat_bar]) \<and>
           watch_pair_body ''rest'' btc_pair (Fetched [flat_bar]) =
             (None, btc_pair\<lparr>ohlcv := [flat_bar], last_closed_ts := Some 1\<rparr>,
              [StatusPut (Status ''BTC/USDT'' ''spot'' ''1h'' 1 ''rest''), Sleep 0])"
    by (simp add: watch_pair_body_flat_bar)
  have c: "last_closed_ts (btc_pair\<lparr>last_closed_ts := Some 5\<rparr>) = Some 5" by simp
  from stale_batch_is_discarded [where rows = "[flat_bar]" and pair = "btc_pair\<lparr>last_closed_ts := Some 5\<rparr>"
      and t = 5 and mode = "''rest''" and frs = "[Fetched [flat_bar], Fetched [drop_bar]]"] a c
  have 1: "watch_pair_body ''rest'' (btc_pair\<lparr>last_closed_ts := Some 5\<rparr>) (Fetched [flat_bar]) =
     (None, btc_pair\<lparr>last_closed_ts := Some 5\<rparr>, [Sleep 0])"
    and 3: "\<exists>t'. last_closed_ts (fst (snd (watch_pair ''rest'' (btc_pair\<lparr>last_closed_ts := Some 5\<rparr>)
             [Fetched [flat_bar], Fetched [drop_bar]]))) = Some t' \<and> 5 \<le> t'"
    by blast+
  from stale_batch_is_discarded [where rows = "[flat_bar]" and rows' = "[flat_bar]" and pair = btc_pair
      and mode = "''rest''" and ex = None
      and pair' = "btc_pair\<lparr>ohlcv := [flat_bar], last_closed_ts := Some 1\<rparr>"
      and effs = "[StatusPut (Status ''BTC/USDT'' ''spot'' ''1h'' 1 ''rest''), Sleep 0]"] b
  have 2: "watch_pair_body ''rest'' (btc_pair\<lparr>ohlcv := [flat_bar], last_closed_ts := Some 1\<rparr>) (Fetched [flat_bar]) =
     (None, btc_pair\<lparr>ohlcv := [flat_bar], last_closed_ts := Some 1\<rparr>, [Sleep 0])"
    by blast
  from 1 2 3 b show ?thesis by blast
qed

text \<open>
  Claim C2 (the task resumes its polling loop after a transport error) against the
  code: the handler is outside the loop, so after a transport error the task puts the
  error status, sleeps one second and returns. The batch that would follow is never
  read, whereas the same batch alone is processed and leaves the task waiting for the
  next one.
\<close>
theorem watch_pair_returns_after_transport_error:
  "watch_pair ''rest'' btc_pair [Raises ''timeout'', Fetched [flat_bar]] =
     (Returned, btc_pair,
      [StatusPut (ErrorStatus ''BTC/USDT'' ''spot'' ''1h'' ''timeout'' ''rest''), Sleep 1]) \<and>
   watch_pair ''rest'' btc_pair [Fetched [flat_bar]] =
     (Awaiting, btc_pair\<lparr>ohlcv := [flat_bar], last_closed_ts := Some 1\<rparr>,
      [StatusPut (Status ''BTC/USDT'' ''spot'' ''1h'' 1 ''rest''), Sleep 0])"
proof -
  have 1: "watch_pair ''rest'' btc_pair [Raises ''timeout'', Fetched [flat_bar]] =
     (Returned, btc_pair,
      [StatusPut (ErrorStatus ''BTC/USDT'' ''spot'' ''1h'' ''timeout'' ''rest''), Sleep 1])"
    unfolding watch_pair_raises by (simp add: btc_pair_def)
  have 2: "watch_pair ''rest'' btc_pair [Fetched [flat_bar]] =
     (Awaiting, btc_pair\<lparr>ohlcv := [flat_bar], last_closed_ts := Some 1\<rparr>,
      [StatusPut (Status ''BTC/USDT'' ''spot'' ''1h'' 1 ''rest''), Sleep 0])"
    by (simp add: watch_pair_body_flat_bar)
  from 1 2 show ?thesis by blast
qed

end
